theory Spec2Isabelle
  imports Main
begin

section \<open>The worksheet behind the referral system\<close>

text \<open>
  \<^verbatim>\<open>app.py\<close> keeps every referral in one worksheet of a spreadsheet and reaches it
  through a client library: \<^verbatim>\<open>get_all_records\<close>, \<^verbatim>\<open>append_row\<close>, \<^verbatim>\<open>col_values\<close>,
  \<^verbatim>\<open>row_values\<close> and \<^verbatim>\<open>update_cell\<close>. The worksheet is modelled as the list of its rows,
  each row the list of its cell texts; row 1 is the header row. A cell that a row does
  not reach reads as the empty text. Cell texts come back from a read as they were
  written: conversions that the client library applies to a cell's text on reading are
  not part of this model.
\<close>

type_synonym row = "string list"
type_synonym worksheet = "row list"

definition cell :: "row \<Rightarrow> nat \<Rightarrow> string" where
  "cell r c = (if c < length r then r ! c else [])"

text \<open>\<^verbatim>\<open>worksheet.col_values(c)\<close> and \<^verbatim>\<open>worksheet.row_values(r)\<close>, both counted from 1.\<close>

definition col_values :: "worksheet \<Rightarrow> nat \<Rightarrow> string list" where
  "col_values ws c = map (\<lambda>r. cell r (c - 1)) ws"

definition row_values :: "worksheet \<Rightarrow> nat \<Rightarrow> string list" where
  "row_values ws r = (if 1 \<le> r \<and> r \<le> length ws then ws ! (r - 1) else [])"

text \<open>\<^verbatim>\<open>worksheet.append_row(row_data)\<close>: the row is added below the last one.\<close>

definition append_row :: "worksheet \<Rightarrow> row \<Rightarrow> worksheet" where
  "append_row ws row_data = ws @ [row_data]"

text \<open>
  \<^verbatim>\<open>worksheet.update_cell(r, c, v)\<close>, counted from 1: one cell is written; a row that is
  too short, or a worksheet with too few rows, is filled up with empty cells first.
\<close>

definition put_cell :: "row \<Rightarrow> nat \<Rightarrow> string \<Rightarrow> row" where
  "put_cell r c v = (r @ replicate (Suc c - length r) []) [c := v]"

definition update_cell :: "worksheet \<Rightarrow> nat \<Rightarrow> nat \<Rightarrow> string \<Rightarrow> worksheet" where
  "update_cell ws r c v =
     (let ws' = ws @ replicate (r - length ws) []
      in ws' [r - 1 := put_cell (ws' ! (r - 1)) (c - 1) v])"

text \<open>
  Python's \<^verbatim>\<open>x in xs\<close> followed by \<^verbatim>\<open>xs.index(x)\<close>: the position of the first element
  equal to \<open>x\<close>, counted from 0. \<open>None\<close> is the case \<^verbatim>\<open>x not in xs\<close>, in which
  \<^verbatim>\<open>index\<close> itself would raise \<^verbatim>\<open>ValueError\<close>.
\<close>

fun py_index :: "'a list \<Rightarrow> 'a \<Rightarrow> nat option" where
  "py_index [] x = None"
| "py_index (y # ys) x =
     (if y = x then Some 0 else (case py_index ys x of None \<Rightarrow> None | Some i \<Rightarrow> Some (Suc i)))"

text \<open>
  \<^verbatim>\<open>worksheet.get_all_records()\<close>: one dictionary per row below the header row, the header
  cells being the keys. A header row that names a column twice makes the call raise,
  which is \<open>None\<close> here. \<^verbatim>\<open>pd.DataFrame(data)\<close> then takes its columns from the keys.
\<close>

type_synonym py_dict = "(string \<times> string) list"

definition get_all_records :: "worksheet \<Rightarrow> py_dict list option" where
  "get_all_records ws =
     (case ws of
        [] \<Rightarrow> Some []
      | keys # vals \<Rightarrow>
          if \<not> distinct keys then None
          else Some (map (\<lambda>r. zip keys (map (cell r) [0..<length keys])) vals))"

record dataframe =
  columns :: "string list"
  rows :: "row list"

definition DataFrame :: "py_dict list \<Rightarrow> dataframe" where
  "DataFrame data =
     \<lparr>columns = (case data of [] \<Rightarrow> [] | d # _ \<Rightarrow> map fst d), rows = map (map snd) data\<rparr>"

text \<open>\<^verbatim>\<open>df.empty\<close>: no rows or no columns.\<close>

definition df_empty :: "dataframe \<Rightarrow> bool" where
  "df_empty df = (rows df = [] \<or> columns df = [])"

text \<open>
  \<^verbatim>\<open>df[df[col] == v]\<close>: the rows whose cell in column \<open>col\<close> equals \<open>v\<close>, in their order.
  \<open>None\<close> is the \<^verbatim>\<open>KeyError\<close> of a column that the frame does not have.
\<close>

definition df_where_eq :: "dataframe \<Rightarrow> string \<Rightarrow> string \<Rightarrow> dataframe option" where
  "df_where_eq df col v =
     (case py_index (columns df) col of
        None \<Rightarrow> None
      | Some j \<Rightarrow> Some (df\<lparr>rows := filter (\<lambda>r. cell r j = v) (rows df)\<rparr>))"

text \<open>\<^verbatim>\<open>df[col].tolist()\<close>, for a column the frame has.\<close>

definition df_column :: "dataframe \<Rightarrow> string \<Rightarrow> string list option" where
  "df_column df col =
     (case py_index (columns df) col of
        None \<Rightarrow> None
      | Some j \<Rightarrow> Some (map (\<lambda>r. cell r j) (rows df)))"

section \<open>Dates and times as the forms print them\<close>

record date =
  year :: nat
  month :: nat
  day :: nat

record datetime = date +
  hour :: nat
  minute :: nat
  second :: nat

definition digit :: "nat \<Rightarrow> char" where
  "digit n = ''0123456789'' ! (n mod 10)"

definition pad2 :: "nat \<Rightarrow> string" where
  "pad2 n = [digit (n div 10), digit n]"

definition pad4 :: "nat \<Rightarrow> string" where
  "pad4 n = [digit (n div 1000), digit (n div 100), digit (n div 10), digit n]"

text \<open>\<^verbatim>\<open>d.strftime("%Y-%m-%d")\<close> and \<^verbatim>\<open>d.strftime("%Y-%m-%d %H:%M:%S")\<close>, years 1000 to 9999.\<close>

definition strftime_ymd :: "'a date_scheme \<Rightarrow> string" where
  "strftime_ymd d = pad4 (year d) @ ''-'' @ pad2 (month d) @ ''-'' @ pad2 (day d)"

definition strftime_ymd_hms :: "datetime \<Rightarrow> string" where
  "strftime_ymd_hms d =
     strftime_ymd d @ '' '' @ pad2 (hour d) @ '':'' @ pad2 (minute d) @ '':'' @ pad2 (second d)"

section \<open>The state of the application and the store adapter\<close>

text \<open>
  What a call to the store can meet: the store answers (\<open>Up\<close>), or the client raises
  \<^verbatim>\<open>SpreadsheetNotFound\<close>, \<^verbatim>\<open>WorksheetNotFound\<close> or some other exception.
\<close>

datatype transport = Up | SpreadsheetNotFound | WorksheetNotFound | Broken

text \<open>
  The messages the script puts on the page, one constructor per \<^verbatim>\<open>st.error\<close>,
  \<^verbatim>\<open>st.warning\<close>, \<^verbatim>\<open>st.info\<close> and \<^verbatim>\<open>st.success\<close> of the source, with the values its text
  interpolates. \<open>Error_required_fields\<close> is the fixed text of line 133: "Please fill in
  all required fields (Patient Name, Date of Birth, Gender, Referring PHC, Diagnosis,
  Referring Doctor)."
\<close>

datatype ui_msg =
    Error_sheet_not_found
  | Error_worksheet_not_found
  | Error_loading
  | Error_appending
  | Error_updating
  | Error_referral_id_not_found string
  | Error_column_not_found string
  | Info_referral_time string
  | Error_required_fields
  | Success_submitted string string
  | Info_referral_id string
  | Error_submit_failed
  | Info_no_referrals
  | Success_all_acknowledged
  | Show_pending
  | Show_details string string string
  | Warning_fill_in
  | Success_acknowledged string
  | Error_ack_failed
  | Info_select_pending
  | Info_none_acknowledged
  | Show_acknowledged

text \<open>The calls made to the two writing functions of the adapter, each with what it returned.\<close>

datatype call =
    Append_call row bool
  | Update_call string string string bool

text \<open>
  \<open>sheet\<close> is the worksheet, \<open>cache\<close> the entry of \<^verbatim>\<open>st.cache_data\<close> for \<^verbatim>\<open>load_data\<close>
  with the time it was stored at, \<open>calls\<close> the trace of adapter calls and \<open>screen\<close> the
  messages shown so far.
\<close>

record world =
  sheet :: worksheet
  cache :: "(nat \<times> dataframe) option"
  calls :: "call list"
  screen :: "ui_msg list"

definition say :: "ui_msg \<Rightarrow> world \<Rightarrow> world" where
  "say m w = w\<lparr>screen := screen w @ [m]\<rparr>"

definition ttl :: nat where
  "ttl = 60"

text \<open>\<^verbatim>\<open>@st.cache_data(ttl=60)\<close>: an entry younger than \<open>ttl\<close> is returned without running the body.\<close>

definition cached_load :: "nat \<Rightarrow> world \<Rightarrow> dataframe option" where
  "cached_load clock w =
     (case cache w of
        None \<Rightarrow> None
      | Some (t, df) \<Rightarrow> if clock < t + ttl then Some df else None)"

text \<open>The body of \<^verbatim>\<open>load_data\<close>: the frame, or the message of the \<^verbatim>\<open>except\<close> branch taken.\<close>

definition load_data_body :: "transport \<Rightarrow> worksheet \<Rightarrow> ui_msg + dataframe" where
  "load_data_body net ws =
     (case net of
        SpreadsheetNotFound \<Rightarrow> Inl Error_sheet_not_found
      | WorksheetNotFound \<Rightarrow> Inl Error_worksheet_not_found
      | Broken \<Rightarrow> Inl Error_loading
      | Up \<Rightarrow> (case get_all_records ws of
                 None \<Rightarrow> Inl Error_loading
               | Some data \<Rightarrow> Inr (DataFrame data)))"

text \<open>\<^verbatim>\<open>load_data()\<close>; \<open>None\<close> is \<^verbatim>\<open>st.stop()\<close>, after which nothing is cached.\<close>

definition load_data :: "transport \<Rightarrow> nat \<Rightarrow> world \<Rightarrow> dataframe option \<times> world" where
  "load_data net clock w =
     (case cached_load clock w of
        Some df \<Rightarrow> (Some df, w)
      | None \<Rightarrow>
          (case load_data_body net (sheet w) of
             Inl e \<Rightarrow> (None, say e w)
           | Inr df \<Rightarrow> (Some df, w\<lparr>cache := Some (clock, df)\<rparr>)))"

text \<open>\<^verbatim>\<open>append_data(row_data)\<close>.\<close>

definition append_data :: "transport \<Rightarrow> row \<Rightarrow> world \<Rightarrow> bool \<times> world" where
  "append_data net row_data w =
     (if net = Up
      then (True, w\<lparr>sheet := append_row (sheet w) row_data, cache := None,
                     calls := calls w @ [Append_call row_data True]\<rparr>)
      else (False, say Error_appending (w\<lparr>calls := calls w @ [Append_call row_data False]\<rparr>)))"

text \<open>\<^verbatim>\<open>update_cell_by_referral_id(referral_id, column_name, new_value)\<close>.\<close>

definition update_failed :: "string \<Rightarrow> string \<Rightarrow> string \<Rightarrow> ui_msg \<Rightarrow> world \<Rightarrow> bool \<times> world" where
  "update_failed referral_id column_name new_value e w =
     (False, say e (w\<lparr>calls := calls w @ [Update_call referral_id column_name new_value False]\<rparr>))"

definition update_cell_by_referral_id ::
  "transport \<Rightarrow> string \<Rightarrow> string \<Rightarrow> string \<Rightarrow> world \<Rightarrow> bool \<times> world" where
  "update_cell_by_referral_id net referral_id column_name new_value w =
     (if net \<noteq> Up then update_failed referral_id column_name new_value Error_updating w
      else
        let referral_ids = col_values (sheet w) 1 in
        case py_index referral_ids referral_id of
          None \<Rightarrow>
            update_failed referral_id column_name new_value
              (Error_referral_id_not_found referral_id) w
        | Some i \<Rightarrow>
            let row_index = i + 1;
                headers = row_values (sheet w) 1 in
            case py_index headers column_name of
              None \<Rightarrow>
                update_failed referral_id column_name new_value
                  (Error_column_not_found column_name) w
            | Some j \<Rightarrow>
                let col_index = j + 1 in
                (True, w\<lparr>sheet := update_cell (sheet w) row_index col_index new_value,
                          cache := None,
                          calls := calls w @
                            [Update_call referral_id column_name new_value True]\<rparr>))"

section \<open>The referral form of the primary health care role\<close>

record referral_inputs =
  patient_name :: string
  patient_dob :: "date option"
  patient_gender :: string
  patient_contact :: string
  referring_phc :: string
  referring_doctor :: string
  diagnosis :: string
  submitted :: bool

text \<open>The test of line 132: Python's \<^verbatim>\<open>all([...])\<close> over the truth values of the six inputs.\<close>

definition all_required :: "referral_inputs \<Rightarrow> bool" where
  "all_required inp =
     (patient_name inp \<noteq> [] \<and> patient_dob inp \<noteq> None \<and> patient_gender inp \<noteq> ''Select'' \<and>
      referring_phc inp \<noteq> [] \<and> diagnosis inp \<noteq> [] \<and> referring_doctor inp \<noteq> [])"

text \<open>The list of lines 139 to 153; it is only built once \<open>patient_dob\<close> is known to be a date.\<close>

definition row_data :: "string \<Rightarrow> string \<Rightarrow> date \<Rightarrow> referral_inputs \<Rightarrow> row" where
  "row_data referral_id referral_datetime dob inp =
     [referral_id,
      patient_name inp,
      strftime_ymd dob,
      patient_gender inp,
      patient_contact inp,
      referring_phc inp,
      referral_datetime,
      diagnosis inp,
      referring_doctor inp,
      ''No'',
      [],
      [],
      []]"

text \<open>
  The page of the role "Primary Health Care (PHC)". \<open>now\<close> is what \<^verbatim>\<open>datetime.now()\<close>
  returns and \<open>uuid4\<close> the text of \<^verbatim>\<open>str(uuid.uuid4())\<close>.
\<close>

definition phc_referral_form ::
  "transport \<Rightarrow> datetime \<Rightarrow> string \<Rightarrow> referral_inputs \<Rightarrow> world \<Rightarrow> world" where
  "phc_referral_form net now uuid4 inp w =
     (let referral_datetime = strftime_ymd_hms now;
          w0 = say (Info_referral_time referral_datetime) w
      in if \<not> submitted inp then w0
         else if \<not> all_required inp then say Error_required_fields w0
         else
           (case patient_dob inp of
              None \<Rightarrow> say Error_required_fields w0
            | Some dob \<Rightarrow>
                let referral_id = uuid4 in
                (case append_data net (row_data referral_id referral_datetime dob inp) w0 of
                   (True, w1) \<Rightarrow>
                     say (Info_referral_id referral_id)
                       (say (Success_submitted (patient_name inp) (referring_phc inp)) w1)
                 | (False, w1) \<Rightarrow> say Error_submit_failed w1)))"

section \<open>The dashboard of the hospital role\<close>

record ack_inputs =
  selection :: nat
  ack_submitted :: bool
  time_of_presentation :: string
  acknowledged_by :: string
  gbagada_notes :: string

text \<open>How a run of the script ends: at its last line, by \<^verbatim>\<open>st.stop()\<close>, by \<^verbatim>\<open>st.rerun()\<close>, or by an uncaught \<^verbatim>\<open>KeyError\<close> or \<^verbatim>\<open>IndexError\<close>.\<close>

datatype flow = Continue | Stop | Rerun | Raise_KeyError string | Raise_IndexError

text \<open>\<^verbatim>\<open>st.selectbox\<close>: the chosen option; a choice that is not on offer falls back to the first option.\<close>

definition selectbox :: "string list \<Rightarrow> nat \<Rightarrow> string" where
  "selectbox options i = (if i < length options then options ! i else cell options 0)"

text \<open>
  Lines 225 to 240, inside \<^verbatim>\<open>acknowledge_form\<close>. \<open>net k\<close> is what the \<open>k\<close>-th call to the
  store of this run meets.
\<close>

definition acknowledge_form ::
  "(nat \<Rightarrow> transport) \<Rightarrow> string \<Rightarrow> string \<Rightarrow> ack_inputs \<Rightarrow> world \<Rightarrow> flow \<times> world" where
  "acknowledge_form net referral_to_ack shown_name inp w =
     (if \<not> ack_submitted inp then (Continue, w)
      else if \<not> (time_of_presentation inp \<noteq> [] \<and> acknowledged_by inp \<noteq> [])
      then (Continue, say Warning_fill_in w)
      else
        (case update_cell_by_referral_id (net 1) referral_to_ack
                ''Gbagada Acknowledged'' ''Yes'' w of
           (success1, w1) \<Rightarrow>
        (case update_cell_by_referral_id (net 2) referral_to_ack
                ''Date/Time of Presentation'' (time_of_presentation inp) w1 of
           (success2, w2) \<Rightarrow>
        (case update_cell_by_referral_id (net 3) referral_to_ack
                ''Acknowledged By'' (acknowledged_by inp) w2 of
           (success3, w3) \<Rightarrow>
        (case update_cell_by_referral_id (net 4) referral_to_ack
                ''Gbagada Notes'' (gbagada_notes inp) w3 of
           (success4, w4) \<Rightarrow>
             if success1 \<and> success2 \<and> success3 \<and> success4
             then (Rerun, say (Success_acknowledged shown_name) w4)
             else (Continue, say Error_ack_failed w4))))))"

text \<open>Lines 178 to 242: the pending table, the selection and the acknowledgment form.\<close>

definition pending_section ::
  "(nat \<Rightarrow> transport) \<Rightarrow> ack_inputs \<Rightarrow> dataframe \<Rightarrow> world \<Rightarrow> flow \<times> world" where
  "pending_section net inp unacknowledged_df w =
     (if df_empty unacknowledged_df then (Continue, say Success_all_acknowledged w)
      else if ''Date/Time of Referral'' \<notin> set (columns unacknowledged_df)
      then (Raise_KeyError ''Date/Time of Referral'', w)
      else
        (case df_column unacknowledged_df ''Referral ID'' of
           None \<Rightarrow> (Raise_KeyError ''Referral ID'', w)
         | Some ids \<Rightarrow>
             let w1 = say Show_pending w;
                 referral_to_ack = selectbox (''Select a Referral'' # ids) (selection inp)
             in if referral_to_ack \<noteq> ''Select a Referral'' then
                  (case df_where_eq unacknowledged_df ''Referral ID'' referral_to_ack of
                     None \<Rightarrow> (Raise_KeyError ''Referral ID'', w1)
                   | Some chosen \<Rightarrow>
                   (case rows chosen of
                      [] \<Rightarrow> (Raise_IndexError, w1)
                    | selected_referral_details # _ \<Rightarrow>
                       (case py_index (columns unacknowledged_df) ''Patient Name'' of
                          None \<Rightarrow> (Raise_KeyError ''Patient Name'', w1)
                        | Some a \<Rightarrow>
                       (case py_index (columns unacknowledged_df) ''Referring PHC'' of
                          None \<Rightarrow> (Raise_KeyError ''Referring PHC'', w1)
                        | Some b \<Rightarrow>
                       (case py_index (columns unacknowledged_df)
                               ''Diagnosis/Reason for Referral'' of
                          None \<Rightarrow> (Raise_KeyError ''Diagnosis/Reason for Referral'', w1)
                        | Some c \<Rightarrow>
                            acknowledge_form net referral_to_ack
                              (cell selected_referral_details a) inp
                              (say (Show_details (cell selected_referral_details a)
                                      (cell selected_referral_details b)
                                      (cell selected_referral_details c)) w1))))))
                else (Continue, say Info_select_pending w1)))"

text \<open>Lines 245 to 255: the table of acknowledged referrals.\<close>

definition acknowledged_section :: "dataframe \<Rightarrow> world \<Rightarrow> flow \<times> world" where
  "acknowledged_section acknowledged_df w =
     (if df_empty acknowledged_df then (Continue, say Info_none_acknowledged w)
      else if ''Date/Time of Presentation'' \<notin> set (columns acknowledged_df)
      then (Raise_KeyError ''Date/Time of Presentation'', w)
      else if ''Referral ID'' \<notin> set (columns acknowledged_df)
      then (Raise_KeyError ''Referral ID'', w)
      else (Continue, say Show_acknowledged w))"

text \<open>
  The page of the role "Gbagada General Hospital", lines 165 to 255. \<open>net 0\<close> is what
  \<^verbatim>\<open>load_data\<close> meets and \<open>clock\<close> the time of the run in seconds.
\<close>

definition gbagada_page ::
  "(nat \<Rightarrow> transport) \<Rightarrow> nat \<Rightarrow> ack_inputs \<Rightarrow> world \<Rightarrow> flow \<times> world" where
  "gbagada_page net clock inp w =
     (case load_data (net 0) clock w of
        (None, w0) \<Rightarrow> (Stop, w0)
      | (Some data_df, w0) \<Rightarrow>
          if df_empty data_df then (Continue, say Info_no_referrals w0)
          else
            (case df_where_eq data_df ''Gbagada Acknowledged'' ''No'' of
               None \<Rightarrow> (Raise_KeyError ''Gbagada Acknowledged'', w0)
             | Some unacknowledged_df \<Rightarrow>
            (case df_where_eq data_df ''Gbagada Acknowledged'' ''Yes'' of
               None \<Rightarrow> (Raise_KeyError ''Gbagada Acknowledged'', w0)
             | Some acknowledged_df \<Rightarrow>
                 (case pending_section net inp unacknowledged_df w0 of
                    (Continue, w1) \<Rightarrow> acknowledged_section acknowledged_df w1
                  | (f, w1) \<Rightarrow> (f, w1)))))"

section \<open>The header row and a small worksheet\<close>

text \<open>
  Modelled from the spec: the header row of the worksheet, which is data of the store and
  not in the source. Section 6 of the specification lists the thirteen header cells; the
  source reads or writes nine of them by name and builds \<open>row_data\<close> in this order.
\<close>

definition sheet_headers :: row where
  "sheet_headers =
     [''Referral ID'', ''Patient Name'', ''Date of Birth'', ''Gender'', ''Patient Contact'',
      ''Referring PHC'', ''Date/Time of Referral'', ''Diagnosis/Reason for Referral'',
      ''Referring Doctor'', ''Gbagada Acknowledged'', ''Date/Time of Presentation'',
      ''Acknowledged By'', ''Gbagada Notes'']"

text \<open>A worksheet with one pending and one acknowledged referral, for the concrete instances below.\<close>

definition demo_sheet :: worksheet where
  "demo_sheet =
     [sheet_headers,
      [''abc-123'', ''Jane Doe'', ''1990-01-01'', ''Female'', ''0800'', ''PHC A'',
       ''2024-01-01 09:00:00'', ''Fever'', ''Dr B'', ''No'', [], [], []],
      [''def-456'', ''John Roe'', ''1985-05-05'', ''Male'', ''0801'', ''PHC B'',
       ''2024-01-01 08:00:00'', ''Cough'', ''Dr C'', ''Yes'', ''2024-01-01 12:00:00'',
       ''Nurse Z'', ''seen'']]"

definition demo_world :: world where
  "demo_world = \<lparr>sheet = demo_sheet, cache = None, calls = [], screen = []\<rparr>"

definition demo_ack :: ack_inputs where
  "demo_ack =
     \<lparr>selection = 1, ack_submitted = True, time_of_presentation = ''2024-01-01 10:00:00'',
      acknowledged_by = ''Nurse A'', gbagada_notes = []\<rparr>"

definition demo_referral :: referral_inputs where
  "demo_referral =
     \<lparr>patient_name = ''Jane Doe'', patient_dob = Some \<lparr>year = 1990, month = 1, day = 1\<rparr>,
      patient_gender = ''Female'', patient_contact = [], referring_phc = ''PHC A'',
      referring_doctor = ''Dr B'', diagnosis = ''Fever'', submitted = True\<rparr>"

definition demo_now :: datetime where
  "demo_now = \<lparr>year = 2024, month = 1, day = 1, hour = 9, minute = 0, second = 0\<rparr>"

definition demo_row :: row where
  "demo_row = row_data ''0f8fad5b-d9cb-469f-a165-70867728950e'' (strftime_ymd_hms demo_now)
                \<lparr>year = 1990, month = 1, day = 1\<rparr> demo_referral"

text \<open>The same worksheet, with an empty frame left in the cache at time 0.\<close>

definition demo_stale :: world where
  "demo_stale = demo_world\<lparr>cache := Some (0, \<lparr>columns = [], rows = []\<rparr>)\<rparr>"




definition demo_df :: dataframe where
  "demo_df = \<lparr>columns = sheet_headers, rows = tl demo_sheet\<rparr>"

text \<open>
  The specification's wording of a validation error, "listing which" input is missing:
  the names of the required inputs that a submission leaves out. The source has no
  counterpart; the definition serves to compare its message with that wording.
\<close>

definition missing_fields :: "referral_inputs \<Rightarrow> string list" where
  "missing_fields inp =
     (if patient_name inp = [] then [''Patient Name''] else []) @
     (if patient_dob inp = None then [''Date of Birth''] else []) @
     (if patient_gender inp = ''Select'' then [''Gender''] else []) @
     (if referring_phc inp = [] then [''Referring PHC''] else []) @
     (if diagnosis inp = [] then [''Diagnosis''] else []) @
     (if referring_doctor inp = [] then [''Referring Doctor''] else [])"


section \<open>Runs of the two flows\<close>

text \<open>
  The text of \<^verbatim>\<open>str(uuid.uuid4())\<close>, which is produced outside the source: 36 characters
  in five groups separated by hyphens.
\<close>

definition uuid4_text :: "string \<Rightarrow> bool" where
  "uuid4_text s =
     (length s = 36 \<and> s ! 8 = CHR ''-'' \<and> s ! 13 = CHR ''-'' \<and> s ! 18 = CHR ''-'' \<and>
      s ! 23 = CHR ''-'')"

text \<open>
  The worksheets the two flows work on: the header row of the specification on top, and
  below it rows whose id is not the header's own label and whose acknowledged cell is
  ''No'' or ''Yes''. A cache entry, if there is one, is the frame of the current
  worksheet.
\<close>

definition row_ok :: "row \<Rightarrow> bool" where
  "row_ok r = (cell r 0 \<noteq> ''Referral ID'' \<and> (cell r 9 = ''No'' \<or> cell r 9 = ''Yes''))"

definition sheet_ok :: "worksheet \<Rightarrow> bool" where
  "sheet_ok ws = (ws \<noteq> [] \<and> hd ws = sheet_headers \<and> list_all row_ok (tl ws))"

definition cache_ok :: "world \<Rightarrow> bool" where
  "cache_ok w =
     (case cache w of
        None \<Rightarrow> True
      | Some (t, df) \<Rightarrow> load_data_body Up (sheet w) = Inr df)"

definition well_formed :: "world \<Rightarrow> bool" where
  "well_formed w = (sheet_ok (sheet w) \<and> cache_ok w)"

text \<open>
  One run of the script in either role, with any inputs, any behaviour of the store and
  any clock; a submission draws its id from \<^verbatim>\<open>uuid.uuid4()\<close>.
\<close>

inductive step :: "world \<Rightarrow> world \<Rightarrow> bool" where
  submit: "uuid4_text uuid4 \<Longrightarrow> step w (phc_referral_form net now uuid4 inp w)"
| acknowledge: "step w (snd (gbagada_page net clock inp w))"

text \<open>
  The acknowledged field of the record in row \<open>i\<close> (the header row is row 0), found
  through the header as the dashboard finds it.
\<close>

definition acknowledged_field :: "worksheet \<Rightarrow> nat \<Rightarrow> string option" where
  "acknowledged_field ws i =
     (case py_index (row_values ws 1) ''Gbagada Acknowledged'' of
        None \<Rightarrow> None
      | Some j \<Rightarrow> if 0 < i \<and> i < length ws then Some (cell (ws ! i) j) else None)"

text \<open>
  \<open>only_yes ws ws'\<close>: every record of \<open>ws\<close> is still there in \<open>ws'\<close>, with its
  acknowledged cell unchanged or turned from ''No'' to ''Yes''.
\<close>

definition only_yes :: "worksheet \<Rightarrow> worksheet \<Rightarrow> bool" where
  "only_yes ws ws' =
     (length ws \<le> length ws' \<and>
      (\<forall>i. 0 < i \<and> i < length ws \<longrightarrow>
         cell (ws' ! i) 9 = cell (ws ! i) 9 \<or>
         (cell (ws ! i) 9 = ''No'' \<and> cell (ws' ! i) 9 = ''Yes'')))"

definition advance :: "world \<Rightarrow> world \<Rightarrow> bool" where
  "advance w w' = (well_formed w' \<and> only_yes (sheet w) (sheet w'))"

section \<open>Facts about the adapter\<close>

lemma py_index_None: "py_index xs x = None \<longleftrightarrow> x \<notin> set xs"
  by (induction xs) (auto split: option.splits)

lemma py_index_Some:
  "py_index xs x = Some i \<Longrightarrow> i < length xs \<and> xs ! i = x \<and> (\<forall>k<i. xs ! k \<noteq> x)"
proof (induction xs arbitrary: i)
  case Nil
  then show ?case by simp
next
  case (Cons y ys)
  show ?case
  proof (cases "y = x")
    case True
    with Cons.prems show ?thesis by simp
  next
    case False
    with Cons.prems obtain i' where i': "py_index ys x = Some i'" "i = Suc i'"
      by (auto split: option.splits)
    from Cons.IH[OF i'(1)] False i'(2) show ?thesis
      by (auto simp: nth_Cons split: nat.splits)
  qed
qed

lemma update_failed_simps:
  "fst (update_failed r c v e w) = False"
  "sheet (snd (update_failed r c v e w)) = sheet w"
  "cache (snd (update_failed r c v e w)) = cache w"
  "calls (snd (update_failed r c v e w)) = calls w @ [Update_call r c v False]"
  "screen (snd (update_failed r c v e w)) = screen w @ [e]"
  by (simp_all add: update_failed_def say_def)

lemma demo_ids: "col_values (sheet demo_world) 1 = [''Referral ID'', ''abc-123'', ''def-456'']"
  by (simp add: demo_world_def demo_sheet_def sheet_headers_def col_values_def cell_def)

lemma demo_header_row: "row_values (sheet demo_world) 1 = sheet_headers"
  by (simp add: demo_world_def demo_sheet_def row_values_def)

lemma distinct_sheet_headers: "distinct sheet_headers"
  by (simp add: sheet_headers_def)

lemma strftime_demo: "strftime_ymd_hms demo_now = ''2024-01-01 09:00:00''"
  by (simp add: strftime_ymd_hms_def strftime_ymd_def demo_now_def pad2_def pad4_def digit_def)

lemma demo_row_val:
  "demo_row =
     [''0f8fad5b-d9cb-469f-a165-70867728950e'', ''Jane Doe'', ''1990-01-01'', ''Female'', [],
      ''PHC A'', ''2024-01-01 09:00:00'', ''Fever'', ''Dr B'', ''No'', [], [], []]"
  by (simp add: demo_row_def row_data_def demo_referral_def strftime_demo strftime_ymd_def
        pad2_def pad4_def digit_def)

lemma col_values_nth: "k < length ws \<Longrightarrow> col_values ws (Suc 0) ! k = cell (ws ! k) 0"
  by (simp add: col_values_def)

lemma length_col_values: "length (col_values ws c) = length ws"
  by (simp add: col_values_def)


lemma update_cell_in_range:
  "i < length ws \<Longrightarrow> update_cell ws (Suc i) (Suc j) v = ws [i := put_cell (ws ! i) j v]"
  by (simp add: update_cell_def)

lemma cell_put_cell: "cell (put_cell r j v) c = (if c = j then v else cell r c)"
  by (auto simp: cell_def put_cell_def nth_append nth_list_update)

lemma update_found:
  assumes "py_index (col_values (sheet w) 1) referral_id = Some i"
    and "py_index (row_values (sheet w) 1) column_name = Some j"
  shows "update_cell_by_referral_id Up referral_id column_name new_value w =
           (True, w\<lparr>sheet := (sheet w) [i := put_cell (sheet w ! i) j new_value], cache := None,
                     calls := calls w @ [Update_call referral_id column_name new_value True]\<rparr>)"
proof -
  from py_index_Some[OF assms(1)] have "i < length (sheet w)"
    by (simp add: length_col_values)
  then show ?thesis
    using assms by (simp add: update_cell_by_referral_id_def update_cell_in_range)
qed

lemma append_data_True:
  "append_data net r w = (True, w') \<Longrightarrow>
     net = Up \<and>
     w' = w\<lparr>sheet := sheet w @ [r], cache := None, calls := calls w @ [Append_call r True]\<rparr>"
  by (auto simp: append_data_def append_row_def split: if_splits)

lemma update_True_cache:
  "update_cell_by_referral_id net rid col v w = (True, w') \<Longrightarrow> cache w' = None"
  by (auto simp: update_cell_by_referral_id_def update_failed_def Let_def
           split: if_splits option.splits)

lemma load_data_uncached:
  "cache w = None \<Longrightarrow>
   load_data net clock w =
     (case load_data_body net (sheet w) of
        Inl e \<Rightarrow> (None, say e w)
      | Inr df \<Rightarrow> (Some df, w\<lparr>cache := Some (clock, df)\<rparr>))"
  by (simp add: load_data_def cached_load_def)

lemma demo_load_after_append:
  "load_data_body Up (sheet (snd (append_data Up demo_row demo_stale))) =
     Inr \<lparr>columns = sheet_headers, rows = tl demo_sheet @ [demo_row]\<rparr>"
proof -
  have "sheet (snd (append_data Up demo_row demo_stale)) = demo_sheet @ [demo_row]"
    by (simp add: append_data_def append_row_def demo_stale_def demo_world_def)
  then show ?thesis
    by (simp add: load_data_body_def get_all_records_def demo_sheet_def distinct_sheet_headers
          DataFrame_def)
       (simp add: sheet_headers_def demo_row_val cell_def upt_rec)
qed

text \<open>
  Claim C5. A referral id that does not occur in the first column makes
  \<open>update_cell_by_referral_id\<close> return \<open>False\<close> and leaves the worksheet, cell for cell,
  and the cache as they were. When the store answers, the message shown is the one
  for an id that was not found (the specification's \<^verbatim>\<open>RecordNotFound\<close>); when the store
  does not answer, the call has failed before the column is read.
\<close>

theorem update_absent_id_leaves_sheet:
  assumes "referral_id \<notin> set (col_values (sheet w) 1)"
  shows "fst (update_cell_by_referral_id net referral_id column_name new_value w) = False \<and>
         sheet (snd (update_cell_by_referral_id net referral_id column_name new_value w)) = sheet w \<and>
         cache (snd (update_cell_by_referral_id net referral_id column_name new_value w)) = cache w \<and>
         (net = Up \<longrightarrow>
            screen (snd (update_cell_by_referral_id net referral_id column_name new_value w)) =
              screen w @ [Error_referral_id_not_found referral_id])"
proof -
  from assms have "py_index (col_values (sheet w) 1) referral_id = None"
    by (simp add: py_index_None)
  then show ?thesis
    by (simp add: update_cell_by_referral_id_def update_failed_simps)
qed

theorem update_absent_id_leaves_sheet_witness:
  "''zzz-999'' \<notin> set (col_values (sheet demo_world) 1) \<and>
   fst (update_cell_by_referral_id Up ''zzz-999'' ''Gbagada Acknowledged'' ''Yes'' demo_world) = False \<and>
   sheet (snd (update_cell_by_referral_id Up ''zzz-999'' ''Gbagada Acknowledged'' ''Yes'' demo_world))
     = demo_sheet \<and>
   screen (snd (update_cell_by_referral_id Up ''zzz-999'' ''Gbagada Acknowledged'' ''Yes'' demo_world))
     = [Error_referral_id_not_found ''zzz-999'']"
proof -
  have absent: "''zzz-999'' \<notin> set (col_values (sheet demo_world) 1)"
    using demo_ids by simp
  have "sheet demo_world = demo_sheet" "screen demo_world = []"
    by (simp_all add: demo_world_def)
  with absent
    update_absent_id_leaves_sheet [OF absent, of Up "''Gbagada Acknowledged''" "''Yes''"]
  show ?thesis by simp
qed



text \<open>
  Claim C9. A call of \<open>append_data\<close> or of \<open>update_cell_by_referral_id\<close> that returns
  \<open>True\<close> leaves the cache empty, so the next \<open>load_data\<close>, at whatever time it runs,
  executes its body on the worksheet as written and does not return an older frame.
\<close>

theorem write_invalidates_cache:
  assumes "append_data net r w = (True, w') \<or>
           update_cell_by_referral_id net referral_id column_name new_value w = (True, w')"
  shows "cache w' = None \<and>
         load_data net' clock w' =
           (case load_data_body net' (sheet w') of
              Inl e \<Rightarrow> (None, say e w')
            | Inr df \<Rightarrow> (Some df, w'\<lparr>cache := Some (clock, df)\<rparr>))"
proof -
  from assms have "cache w' = None"
    by (auto dest: append_data_True update_True_cache)
  then show ?thesis
    by (simp add: load_data_uncached)
qed

text \<open>
  With an empty frame cached at time 0, a read at time 1 would return it; after an
  append, the read at time 1 returns the three rows of the worksheet.
\<close>

theorem write_invalidates_cache_witness:
  "append_data Up demo_row demo_stale = (True, snd (append_data Up demo_row demo_stale)) \<and>
   cached_load 1 demo_stale = Some \<lparr>columns = [], rows = []\<rparr> \<and>
   fst (load_data Up 1 (snd (append_data Up demo_row demo_stale))) =
     Some \<lparr>columns = sheet_headers, rows = tl demo_sheet @ [demo_row]\<rparr>"
proof -
  have h: "append_data Up demo_row demo_stale = (True, snd (append_data Up demo_row demo_stale))"
    by (simp add: append_data_def)
  have stale: "cached_load 1 demo_stale = Some \<lparr>columns = [], rows = []\<rparr>"
    by (simp add: cached_load_def demo_stale_def ttl_def)
  from write_invalidates_cache [OF disjI1 [OF h], of Up 1]
  have "fst (load_data Up 1 (snd (append_data Up demo_row demo_stale))) =
     Some \<lparr>columns = sheet_headers, rows = tl demo_sheet @ [demo_row]\<rparr>"
    by (simp add: demo_load_after_append)
  with h stale show ?thesis by simp
qed

lemma say_simps:
  "sheet (say m w) = sheet w" "cache (say m w) = cache w" "calls (say m w) = calls w"
  "screen (say m w) = screen w @ [m]"
  by (simp_all add: say_def)

lemma append_data_calls:
  "calls (snd (append_data net r w)) = calls w @ [Append_call r (net = Up)]"
  by (simp add: append_data_def say_def)

lemma phc_valid:
  assumes "submitted inp" "all_required inp"
  shows "\<exists>dob. patient_dob inp = Some dob \<and>
     phc_referral_form net now uuid4 inp w =
       (case append_data net (row_data uuid4 (strftime_ymd_hms now) dob inp)
                (say (Info_referral_time (strftime_ymd_hms now)) w) of
          (True, w1) \<Rightarrow> say (Info_referral_id uuid4)
                         (say (Success_submitted (patient_name inp) (referring_phc inp)) w1)
        | (False, w1) \<Rightarrow> say Error_submit_failed w1)"
proof -
  from assms(2) obtain dob where "patient_dob inp = Some dob"
    by (auto simp: all_required_def)
  then show ?thesis
    using assms by (simp add: phc_referral_form_def Let_def)
qed


lemma records_rows:
  assumes "distinct keys"
  shows "get_all_records (keys # vals) =
           Some (map (\<lambda>r. zip keys (map (cell r) [0..<length keys])) vals)"
  using assms by (simp add: get_all_records_def)

lemma DataFrame_records:
  assumes "vals \<noteq> []"
  shows "DataFrame (map (\<lambda>r. zip keys (map (cell r) [0..<length keys])) vals) =
           \<lparr>columns = keys, rows = map (\<lambda>r. map (cell r) [0..<length keys]) vals\<rparr>"
  using assms by (cases vals) (simp_all add: DataFrame_def)

lemma load_data_body_rows:
  assumes "distinct keys" and "vals \<noteq> []"
  shows "load_data_body Up (keys # vals) =
           Inr \<lparr>columns = keys, rows = map (\<lambda>r. map (cell r) [0..<length keys]) vals\<rparr>"
  using assms by (simp add: load_data_body_def records_rows DataFrame_records)

lemma demo_referral_ok: "submitted demo_referral" "all_required demo_referral"
  by (simp_all add: demo_referral_def all_required_def)


lemma ack_column: "py_index sheet_headers ''Gbagada Acknowledged'' = Some 9"
  by (simp add: sheet_headers_def)


section \<open>The submit flow\<close>

text \<open>
  Claim C2. A submission that passes the test of line 132 calls \<open>append_data\<close> once. The
  row handed over has thirteen cells in the order of the header row: id, patient name,
  date of birth, gender, contact, referring centre, time of referral, diagnosis,
  referring doctor, then ''No'' and three empty cells for the acknowledgment group.
\<close>

theorem valid_submission_appends_once:
  assumes "submitted inp" and "all_required inp"
  shows "\<exists>dob row. patient_dob inp = Some dob \<and>
           calls (phc_referral_form net now uuid4 inp w) = calls w @ [Append_call row (net = Up)] \<and>
           row = [uuid4, patient_name inp, strftime_ymd dob, patient_gender inp,
                  patient_contact inp, referring_phc inp, strftime_ymd_hms now, diagnosis inp,
                  referring_doctor inp, ''No'', [], [], []] \<and>
           length row = 13 \<and> row ! 9 = ''No'' \<and> row ! 10 = [] \<and> row ! 11 = [] \<and> row ! 12 = []"
proof -
  from phc_valid[OF assms, of net now uuid4 w] obtain dob where
    dob: "patient_dob inp = Some dob" and
    eq: "phc_referral_form net now uuid4 inp w =
       (case append_data net (row_data uuid4 (strftime_ymd_hms now) dob inp)
                (say (Info_referral_time (strftime_ymd_hms now)) w) of
          (True, w1) \<Rightarrow> say (Info_referral_id uuid4)
                         (say (Success_submitted (patient_name inp) (referring_phc inp)) w1)
        | (False, w1) \<Rightarrow> say Error_submit_failed w1)"
    by blast
  have "calls (phc_referral_form net now uuid4 inp w) =
          calls w @ [Append_call (row_data uuid4 (strftime_ymd_hms now) dob inp) (net = Up)]"
    unfolding eq by (simp add: append_data_def say_simps)
  with dob show ?thesis
    by (simp add: row_data_def)
qed

theorem valid_submission_appends_once_witness:
  "submitted demo_referral \<and> all_required demo_referral \<and>
   calls (phc_referral_form Up demo_now ''0f8fad5b-d9cb-469f-a165-70867728950e'' demo_referral
            demo_world) = [Append_call demo_row True]"
proof -
  from valid_submission_appends_once [OF demo_referral_ok,
         of Up demo_now "''0f8fad5b-d9cb-469f-a165-70867728950e''" demo_world]
  obtain dob row where
    dob: "patient_dob demo_referral = Some dob" and
    c: "calls (phc_referral_form Up demo_now ''0f8fad5b-d9cb-469f-a165-70867728950e''
                 demo_referral demo_world) = calls demo_world @ [Append_call row (Up = Up)]" and
    row: "row = [''0f8fad5b-d9cb-469f-a165-70867728950e'', patient_name demo_referral,
                 strftime_ymd dob, patient_gender demo_referral, patient_contact demo_referral,
                 referring_phc demo_referral, strftime_ymd_hms demo_now, diagnosis demo_referral,
                 referring_doctor demo_referral, ''No'', [], [], []]"
    by blast
  from dob have "dob = \<lparr>year = 1990, month = 1, day = 1\<rparr>"
    by (simp add: demo_referral_def)
  with row have "row = demo_row"
    by (simp add: demo_row_def row_data_def)
  with c demo_referral_ok show ?thesis
    by (simp add: demo_world_def)
qed


text \<open>
  Claim C6, as the source has it. A submission with a required input missing gets the
  one fixed message of line 133 and calls neither \<open>append_data\<close> nor anything else of
  the adapter: trace, worksheet and cache are as before. The message names all six
  required inputs whichever of them is missing; it does not say which one is.
\<close>

theorem missing_input_rejected:
  assumes "submitted inp"
    and "patient_name inp = [] \<or> patient_dob inp = None \<or> patient_gender inp = ''Select'' \<or>
         referring_phc inp = [] \<or> diagnosis inp = [] \<or> referring_doctor inp = []"
  shows "screen (phc_referral_form net now uuid4 inp w) =
           screen w @ [Info_referral_time (strftime_ymd_hms now), Error_required_fields] \<and>
         calls (phc_referral_form net now uuid4 inp w) = calls w \<and>
         sheet (phc_referral_form net now uuid4 inp w) = sheet w \<and>
         cache (phc_referral_form net now uuid4 inp w) = cache w"
proof -
  from assms(2) have "\<not> all_required inp"
    by (auto simp: all_required_def)
  with assms(1) have "phc_referral_form net now uuid4 inp w =
      say Error_required_fields (say (Info_referral_time (strftime_ymd_hms now)) w)"
    by (simp add: phc_referral_form_def Let_def)
  then show ?thesis
    by (simp add: say_simps)
qed

theorem missing_input_rejected_witness:
  "submitted (demo_referral\<lparr>diagnosis := []\<rparr>) \<and>
   diagnosis (demo_referral\<lparr>diagnosis := []\<rparr>) = [] \<and>
   calls (phc_referral_form Up demo_now ''0f8fad5b-d9cb-469f-a165-70867728950e''
            (demo_referral\<lparr>diagnosis := []\<rparr>) demo_world) = [] \<and>
   sheet (phc_referral_form Up demo_now ''0f8fad5b-d9cb-469f-a165-70867728950e''
            (demo_referral\<lparr>diagnosis := []\<rparr>) demo_world) = demo_sheet"
proof -
  have h1: "submitted (demo_referral\<lparr>diagnosis := []\<rparr>)"
    by (simp add: demo_referral_def)
  have h2: "diagnosis (demo_referral\<lparr>diagnosis := []\<rparr>) = []"
    by simp
  from missing_input_rejected [OF h1, of Up demo_now
         "''0f8fad5b-d9cb-469f-a165-70867728950e''" demo_world] h2
  have "calls (phc_referral_form Up demo_now ''0f8fad5b-d9cb-469f-a165-70867728950e''
            (demo_referral\<lparr>diagnosis := []\<rparr>) demo_world) = calls demo_world"
       "sheet (phc_referral_form Up demo_now ''0f8fad5b-d9cb-469f-a165-70867728950e''
            (demo_referral\<lparr>diagnosis := []\<rparr>) demo_world) = sheet demo_world"
    by simp_all
  with h1 h2 show ?thesis
    by (simp add: demo_world_def)
qed


text \<open>
  Two submissions, one without a diagnosis and one without a patient name, are answered
  with the same messages, although different inputs are missing.
\<close>

theorem validation_message_counterexample:
  "missing_fields (demo_referral\<lparr>diagnosis := []\<rparr>) = [''Diagnosis''] \<and>
   missing_fields (demo_referral\<lparr>patient_name := []\<rparr>) = [''Patient Name''] \<and>
   screen (phc_referral_form Up demo_now ''0f8fad5b-d9cb-469f-a165-70867728950e''
             (demo_referral\<lparr>diagnosis := []\<rparr>) demo_world) =
     [Info_referral_time ''2024-01-01 09:00:00'', Error_required_fields] \<and>
   screen (phc_referral_form Up demo_now ''0f8fad5b-d9cb-469f-a165-70867728950e''
             (demo_referral\<lparr>patient_name := []\<rparr>) demo_world) =
     [Info_referral_time ''2024-01-01 09:00:00'', Error_required_fields]"
  by (simp add: missing_fields_def demo_referral_def phc_referral_form_def all_required_def
        Let_def say_def demo_world_def strftime_demo)






section \<open>The dashboard's two tables\<close>





section \<open>The acknowledge flow\<close>

lemma update_calls:
  "calls (snd (update_cell_by_referral_id net rid col v w)) =
     calls w @ [Update_call rid col v (fst (update_cell_by_referral_id net rid col v w))]"
  by (simp add: update_cell_by_referral_id_def update_failed_simps Let_def split: option.splits)

lemma update_False_sheet:
  "\<not> fst (update_cell_by_referral_id net rid col v w) \<Longrightarrow>
     sheet (snd (update_cell_by_referral_id net rid col v w)) = sheet w \<and>
     cache (snd (update_cell_by_referral_id net rid col v w)) = cache w"
  by (auto simp: update_cell_by_referral_id_def update_failed_simps Let_def
           split: option.splits if_splits)

lemma acknowledge_form_run:
  assumes "ack_submitted inp" "time_of_presentation inp \<noteq> []" "acknowledged_by inp \<noteq> []"
  shows "acknowledge_form net rid name inp w =
    (let u1 = update_cell_by_referral_id (net 1) rid ''Gbagada Acknowledged'' ''Yes'' w;
         u2 = update_cell_by_referral_id (net 2) rid ''Date/Time of Presentation''
                 (time_of_presentation inp) (snd u1);
         u3 = update_cell_by_referral_id (net 3) rid ''Acknowledged By''
                 (acknowledged_by inp) (snd u2);
         u4 = update_cell_by_referral_id (net 4) rid ''Gbagada Notes''
                 (gbagada_notes inp) (snd u3)
     in if fst u1 \<and> fst u2 \<and> fst u3 \<and> fst u4
        then (Rerun, say (Success_acknowledged name) (snd u4))
        else (Continue, say Error_ack_failed (snd u4)))"
  using assms by (simp add: acknowledge_form_def Let_def split: prod.splits)

lemma demo_ack_ok:
  "ack_submitted demo_ack" "time_of_presentation demo_ack \<noteq> []" "acknowledged_by demo_ack \<noteq> []"
  by (simp_all add: demo_ack_def)


lemma demo_ack_all_up:
  "fst (acknowledge_form (\<lambda>k. Up) ''abc-123'' ''Jane Doe'' demo_ack demo_world) = Rerun \<and>
   last (screen (snd (acknowledge_form (\<lambda>k. Up) ''abc-123'' ''Jane Doe'' demo_ack demo_world))) =
     Success_acknowledged ''Jane Doe''"
  by (simp add: acknowledge_form_def demo_ack_def demo_world_def demo_sheet_def sheet_headers_def
        update_cell_by_referral_id_def col_values_def row_values_def cell_def update_cell_def
        put_cell_def update_failed_def say_def)


text \<open>
  Claim C3. Once the acknowledgment form is submitted with a time of presentation and a
  name, the flow calls \<open>update_cell_by_referral_id\<close> exactly four times, each time with
  the selected id: "Gbagada Acknowledged" := ''Yes'', then the time of presentation, the
  name and the notes. It shows the success message (and reruns) if and only if all four
  calls returned \<open>True\<close>, and the failure message otherwise.
\<close>

theorem acknowledge_four_updates:
  assumes "ack_submitted inp" and "time_of_presentation inp \<noteq> []" and "acknowledged_by inp \<noteq> []"
  shows "\<exists>b1 b2 b3 b4.
           calls (snd (acknowledge_form net rid name inp w)) =
             calls w @
             [Update_call rid ''Gbagada Acknowledged'' ''Yes'' b1,
              Update_call rid ''Date/Time of Presentation'' (time_of_presentation inp) b2,
              Update_call rid ''Acknowledged By'' (acknowledged_by inp) b3,
              Update_call rid ''Gbagada Notes'' (gbagada_notes inp) b4] \<and>
           ((fst (acknowledge_form net rid name inp w) = Rerun \<and>
             last (screen (snd (acknowledge_form net rid name inp w))) = Success_acknowledged name)
              \<longleftrightarrow> (b1 \<and> b2 \<and> b3 \<and> b4)) \<and>
           ((fst (acknowledge_form net rid name inp w) = Continue \<and>
             last (screen (snd (acknowledge_form net rid name inp w))) = Error_ack_failed)
              \<longleftrightarrow> \<not> (b1 \<and> b2 \<and> b3 \<and> b4))"
proof -
  define u1 where "u1 = update_cell_by_referral_id (net 1) rid ''Gbagada Acknowledged'' ''Yes'' w"
  define u2 where "u2 = update_cell_by_referral_id (net 2) rid ''Date/Time of Presentation''
                 (time_of_presentation inp) (snd u1)"
  define u3 where "u3 = update_cell_by_referral_id (net 3) rid ''Acknowledged By''
                 (acknowledged_by inp) (snd u2)"
  define u4 where "u4 = update_cell_by_referral_id (net 4) rid ''Gbagada Notes''
                 (gbagada_notes inp) (snd u3)"
  have run: "acknowledge_form net rid name inp w =
     (if fst u1 \<and> fst u2 \<and> fst u3 \<and> fst u4
      then (Rerun, say (Success_acknowledged name) (snd u4))
      else (Continue, say Error_ack_failed (snd u4)))"
    using acknowledge_form_run[OF assms] by (simp add: Let_def u1_def u2_def u3_def u4_def)
  have c: "calls (snd u4) = calls w @
             [Update_call rid ''Gbagada Acknowledged'' ''Yes'' (fst u1),
              Update_call rid ''Date/Time of Presentation'' (time_of_presentation inp) (fst u2),
              Update_call rid ''Acknowledged By'' (acknowledged_by inp) (fst u3),
              Update_call rid ''Gbagada Notes'' (gbagada_notes inp) (fst u4)]"
    unfolding u4_def u3_def u2_def u1_def by (simp add: update_calls)
  show ?thesis
    apply (rule exI[of _ "fst u1"], rule exI[of _ "fst u2"], rule exI[of _ "fst u3"],
           rule exI[of _ "fst u4"])
    using c by (simp add: run say_simps)
qed


theorem acknowledge_four_updates_witness:
  "ack_submitted demo_ack \<and> time_of_presentation demo_ack \<noteq> [] \<and> acknowledged_by demo_ack \<noteq> [] \<and>
   calls (snd (acknowledge_form (\<lambda>k. Up) ''abc-123'' ''Jane Doe'' demo_ack demo_world)) =
     [Update_call ''abc-123'' ''Gbagada Acknowledged'' ''Yes'' True,
      Update_call ''abc-123'' ''Date/Time of Presentation'' ''2024-01-01 10:00:00'' True,
      Update_call ''abc-123'' ''Acknowledged By'' ''Nurse A'' True,
      Update_call ''abc-123'' ''Gbagada Notes'' [] True]"
proof -
  from acknowledge_four_updates [OF demo_ack_ok, where net = "\<lambda>k. Up" and rid = "''abc-123''"
      and name = "''Jane Doe''" and w = demo_world]
    demo_ack_all_up
  have "calls (snd (acknowledge_form (\<lambda>k. Up) ''abc-123'' ''Jane Doe'' demo_ack demo_world)) =
     calls demo_world @
     [Update_call ''abc-123'' ''Gbagada Acknowledged'' ''Yes'' True,
      Update_call ''abc-123'' ''Date/Time of Presentation'' (time_of_presentation demo_ack) True,
      Update_call ''abc-123'' ''Acknowledged By'' (acknowledged_by demo_ack) True,
      Update_call ''abc-123'' ''Gbagada Notes'' (gbagada_notes demo_ack) True]"
    by auto
  with demo_ack_ok show ?thesis
    by (simp add: demo_world_def demo_ack_def)
qed





section \<open>The acknowledged field over runs of the flows\<close>

lemma only_yes_refl: "only_yes ws ws"
  by (simp add: only_yes_def)

lemma only_yes_trans:
  assumes "only_yes a b" and "only_yes b c"
  shows "only_yes a c"
  unfolding only_yes_def
proof (intro conjI allI impI)
  from assms show "length a \<le> length c"
    by (simp add: only_yes_def)
next
  fix i assume i: "0 < i \<and> i < length a"
  with assms(1) have ib: "0 < i \<and> i < length b"
    by (simp add: only_yes_def)
  from assms(1) i have
    "cell (b ! i) 9 = cell (a ! i) 9 \<or> (cell (a ! i) 9 = ''No'' \<and> cell (b ! i) 9 = ''Yes'')"
    by (simp add: only_yes_def)
  moreover from assms(2) ib have
    "cell (c ! i) 9 = cell (b ! i) 9 \<or> (cell (b ! i) 9 = ''No'' \<and> cell (c ! i) 9 = ''Yes'')"
    by (simp add: only_yes_def)
  ultimately show
    "cell (c ! i) 9 = cell (a ! i) 9 \<or> (cell (a ! i) 9 = ''No'' \<and> cell (c ! i) 9 = ''Yes'')"
    by auto
qed

lemma advance_refl: "well_formed w \<Longrightarrow> advance w w"
  by (simp add: advance_def only_yes_refl)

lemma advance_trans:
  assumes "advance w w1" and "advance w1 w2"
  shows "advance w w2"
  using assms only_yes_trans[of "sheet w" "sheet w1" "sheet w2"]
  by (simp add: advance_def)

lemma well_formed_same:
  assumes "sheet w' = sheet w" and "cache w' = cache w"
  shows "well_formed w' = well_formed w"
  unfolding well_formed_def cache_ok_def assms ..

lemma advance_same:
  assumes "sheet w' = sheet w1" and "cache w' = cache w1" and "advance w w1"
  shows "advance w w'"
  using assms(3) well_formed_same[OF assms(1,2)] assms(1)
  unfolding advance_def by simp

lemma advance_say:
  assumes "advance w w1"
  shows "advance w (say m w1)"
proof (rule advance_same[OF _ _ assms])
  show "sheet (say m w1) = sheet w1" by (simp add: say_def)
  show "cache (say m w1) = cache w1" by (simp add: say_def)
qed

lemma sheet_ok_header:
  "sheet_ok ws \<Longrightarrow> row_values ws 1 = sheet_headers \<and> ws ! 0 = sheet_headers \<and> 0 < length ws"
  by (cases ws) (simp_all add: sheet_ok_def row_values_def)

lemma sheet_ok_row:
  "sheet_ok ws \<Longrightarrow> 0 < i \<Longrightarrow> i < length ws \<Longrightarrow> row_ok (ws ! i)"
  by (cases ws; cases i) (simp_all add: sheet_ok_def list_all_length)

lemma sheet_ok_update:
  assumes "sheet_ok ws" and "0 < i" and "i < length ws" and "j \<noteq> 0"
    and "j = 9 \<longrightarrow> v = ''Yes''"
  shows "sheet_ok (ws [i := put_cell (ws ! i) j v])"
    and "only_yes ws (ws [i := put_cell (ws ! i) j v])"
proof -
  from assms(1,2,3) have rk: "row_ok (ws ! i)"
    by (rule sheet_ok_row)
  have new: "row_ok (put_cell (ws ! i) j v)"
    using rk assms(4,5) by (auto simp: row_ok_def cell_put_cell)
  obtain h vals where ws: "ws = h # vals"
    using assms(1) by (cases ws) (auto simp: sheet_ok_def)
  obtain k where k: "i = Suc k"
    using assms(2) by (cases i) auto
  have "set (vals [k := put_cell (ws ! i) j v]) \<subseteq> insert (put_cell (ws ! i) j v) (set vals)"
    by (rule set_update_subset_insert)
  then show "sheet_ok (ws [i := put_cell (ws ! i) j v])"
    using assms(1) new unfolding ws k sheet_ok_def list_all_iff by auto
  show "only_yes ws (ws [i := put_cell (ws ! i) j v])"
    unfolding only_yes_def
  proof (intro conjI allI impI)
    show "length ws \<le> length (ws [i := put_cell (ws ! i) j v])" by simp
  next
    fix n assume n: "0 < n \<and> n < length ws"
    show "cell (ws [i := put_cell (ws ! i) j v] ! n) 9 = cell (ws ! n) 9 \<or>
          (cell (ws ! n) 9 = ''No'' \<and> cell (ws [i := put_cell (ws ! i) j v] ! n) 9 = ''Yes'')"
    proof (cases "n = i")
      case True
      with rk assms(3,5) show ?thesis
        by (auto simp: row_ok_def cell_put_cell)
    next
      case False
      then show ?thesis by simp
    qed
  qed
qed

lemma update_True:
  assumes "fst (update_cell_by_referral_id net rid col v w)"
  shows "\<exists>i j. py_index (col_values (sheet w) 1) rid = Some i \<and>
           py_index (row_values (sheet w) 1) col = Some j \<and>
           sheet (snd (update_cell_by_referral_id net rid col v w)) =
             (sheet w) [i := put_cell (sheet w ! i) j v] \<and>
           cache (snd (update_cell_by_referral_id net rid col v w)) = None"
proof -
  from assms have up: "net = Up"
    by (auto simp: update_cell_by_referral_id_def update_failed_simps split: if_splits)
  from assms up obtain i where i: "py_index (col_values (sheet w) 1) rid = Some i"
    by (cases "py_index (col_values (sheet w) 1) rid")
       (auto simp: update_cell_by_referral_id_def update_failed_simps)
  from assms up i obtain j where j: "py_index (row_values (sheet w) 1) col = Some j"
    by (cases "py_index (row_values (sheet w) 1) col")
       (auto simp: update_cell_by_referral_id_def update_failed_simps)
  from update_found[OF i j, of v] up i j show ?thesis by simp
qed

lemma update_advance:
  assumes wf: "well_formed w" and rid: "rid \<noteq> ''Referral ID''"
    and col: "py_index sheet_headers col = Some j" and j0: "j \<noteq> 0"
    and yes: "j = 9 \<longrightarrow> v = ''Yes''"
  shows "advance w (snd (update_cell_by_referral_id net rid col v w))"
proof (cases "fst (update_cell_by_referral_id net rid col v w)")
  case False
  from update_False_sheet[OF False] wf show ?thesis
    by (auto intro: advance_same[of _ w] advance_refl)
next
  case True
  from wf have ok: "sheet_ok (sheet w)" by (simp add: well_formed_def)
  note hd = sheet_ok_header[OF ok]
  from update_True[OF True] hd col obtain i where
    i: "py_index (col_values (sheet w) 1) rid = Some i" and
    s: "sheet (snd (update_cell_by_referral_id net rid col v w)) =
             (sheet w) [i := put_cell (sheet w ! i) j v]" and
    c: "cache (snd (update_cell_by_referral_id net rid col v w)) = None"
    by auto
  from py_index_Some[OF i] have il: "i < length (sheet w)"
    and ieq: "col_values (sheet w) 1 ! i = rid"
    by (simp_all add: length_col_values)
  have "i \<noteq> 0"
  proof
    assume "i = 0"
    with ieq il hd have "rid = cell sheet_headers 0"
      by (simp add: col_values_nth)
    with rid show False
      by (simp add: sheet_headers_def cell_def)
  qed
  then have ipos: "0 < i" by simp
  from sheet_ok_update[OF ok ipos il j0 yes] s c show ?thesis
    by (simp add: advance_def well_formed_def cache_ok_def)
qed

lemma body_Inr_Up: "load_data_body net ws = Inr df \<Longrightarrow> net = Up"
  by (cases net) (simp_all add: load_data_body_def)

lemma cached_load_Some:
  "cached_load clock w = Some df \<Longrightarrow> \<exists>t. cache w = Some (t, df)"
  by (auto simp: cached_load_def split: option.splits if_splits)

lemma advance_same_sheet:
  assumes "well_formed w0" and "sheet w0 = sheet w"
  shows "advance w w0"
  using assms by (simp add: advance_def only_yes_refl)

lemma load_data_wf:
  assumes wf: "well_formed w" and ld: "load_data net clock w = (r, w0)"
  shows "well_formed w0 \<and> sheet w0 = sheet w \<and>
         (\<forall>df. r = Some df \<longrightarrow> load_data_body Up (sheet w) = Inr df)"
proof (cases "cached_load clock w")
  case (Some df)
  with ld have r: "r = Some df" "w0 = w"
    by (simp_all add: load_data_def)
  from cached_load_Some[OF Some] obtain t where "cache w = Some (t, df)" ..
  with wf have "load_data_body Up (sheet w) = Inr df"
    by (simp add: well_formed_def cache_ok_def)
  with r wf show ?thesis by simp
next
  case None
  show ?thesis
  proof (cases "load_data_body net (sheet w)")
    case (Inl e)
    with None ld have "r = None" "w0 = say e w"
      by (simp_all add: load_data_def)
    with wf show ?thesis
      by (simp add: say_simps well_formed_same[of "say e w" w])
  next
    case (Inr df)
    with None ld have r: "r = Some df" "w0 = w\<lparr>cache := Some (clock, df)\<rparr>"
      by (simp_all add: load_data_def)
    from body_Inr_Up[OF Inr] Inr have "load_data_body Up (sheet w) = Inr df"
      by simp
    with r wf show ?thesis
      by (simp add: well_formed_def cache_ok_def)
  qed
qed

lemma df_of_sheet:
  assumes ok: "sheet_ok ws" and body: "load_data_body Up ws = Inr df" and ne: "\<not> df_empty df"
  shows "columns df = sheet_headers \<and>
         rows df = map (\<lambda>r. map (cell r) [0..<length sheet_headers]) (tl ws)"
proof -
  from ok obtain vals where ws: "ws = sheet_headers # vals"
    by (cases ws) (auto simp: sheet_ok_def)
  show ?thesis
  proof (cases "vals = []")
    case True
    with body ws have "df = \<lparr>columns = [], rows = []\<rparr>"
      by (simp add: load_data_body_def get_all_records_def distinct_sheet_headers DataFrame_def)
    with ne show ?thesis by (simp add: df_empty_def)
  next
    case False
    from load_data_body_rows[OF distinct_sheet_headers False] body ws show ?thesis
      by auto
  qed
qed

lemma cell_pad: "k < n \<Longrightarrow> cell (map (cell r) [0..<n]) k = cell r k"
  by (simp add: cell_def)

lemma id_column: "py_index sheet_headers ''Referral ID'' = Some 0"
  by (simp add: sheet_headers_def)

lemma ack_columns:
  "py_index sheet_headers ''Date/Time of Presentation'' = Some 10"
  "py_index sheet_headers ''Acknowledged By'' = Some 11"
  "py_index sheet_headers ''Gbagada Notes'' = Some 12"
  by (simp_all add: sheet_headers_def)

lemma pending_ids_not_header:
  assumes ok: "sheet_ok ws"
    and cols: "columns df = sheet_headers"
    and rws: "rows df = map (\<lambda>r. map (cell r) [0..<length sheet_headers]) (tl ws)"
    and un: "df_where_eq df col v = Some unack"
    and ids: "df_column unack ''Referral ID'' = Some ids"
    and rid: "rid \<in> set ids"
  shows "rid \<noteq> ''Referral ID''"
proof -
  from un have u: "columns unack = columns df" "set (rows unack) \<subseteq> set (rows df)"
    by (auto simp: df_where_eq_def split: option.splits)
  from ids u(1) cols have "ids = map (\<lambda>r. cell r 0) (rows unack)"
    by (simp add: df_column_def id_column)
  with rid obtain r' where r': "r' \<in> set (rows unack)" "rid = cell r' 0"
    by auto
  from r'(1) u(2) rws obtain r where r: "r \<in> set (tl ws)"
    "r' = map (cell r) [0..<length sheet_headers]"
    by auto
  have "0 < length sheet_headers"
    by (simp add: sheet_headers_def)
  with r(2) r'(2) have "rid = cell r 0"
    by (simp add: cell_pad)
  moreover from ok r(1) have "row_ok r"
    by (simp add: sheet_ok_def list_all_iff)
  ultimately show ?thesis
    by (simp add: row_ok_def)
qed

lemma selectbox_in: "selectbox (x # xs) i \<noteq> x \<Longrightarrow> selectbox (x # xs) i \<in> set xs"
  by (cases i) (auto simp: selectbox_def cell_def split: if_splits)

lemma pending_section_cases:
  assumes "pending_section net inp unack w = (f, w')"
  shows "(sheet w' = sheet w \<and> cache w' = cache w) \<or>
         (\<exists>ids rid name w1. df_column unack ''Referral ID'' = Some ids \<and> rid \<in> set ids \<and>
            sheet w1 = sheet w \<and> cache w1 = cache w \<and>
            acknowledge_form net rid name inp w1 = (f, w'))"
proof (cases "df_column unack ''Referral ID''")
  case None
  with assms show ?thesis
    by (auto simp: pending_section_def say_simps split: if_splits)
next
  case (Some ids)
  let ?rid = "selectbox (''Select a Referral'' # ids) (selection inp)"
  show ?thesis
  proof (cases "df_empty unack \<or> ''Date/Time of Referral'' \<notin> set (columns unack) \<or>
                ?rid = ''Select a Referral''")
    case True
    with assms Some show ?thesis
      by (auto simp: pending_section_def say_simps Let_def split: if_splits)
  next
    case False
    then have sel: "?rid \<noteq> ''Select a Referral''" by simp
    then have mem: "?rid \<in> set ids"
      by (rule selectbox_in)
    from False assms Some have run:
      "(case df_where_eq unack ''Referral ID'' ?rid of
          None \<Rightarrow> (Raise_KeyError ''Referral ID'', say Show_pending w)
        | Some chosen \<Rightarrow>
            (case rows chosen of
               [] \<Rightarrow> (Raise_IndexError, say Show_pending w)
             | selected_referral_details # _ \<Rightarrow>
                (case py_index (columns unack) ''Patient Name'' of
                   None \<Rightarrow> (Raise_KeyError ''Patient Name'', say Show_pending w)
                 | Some a \<Rightarrow>
                (case py_index (columns unack) ''Referring PHC'' of
                   None \<Rightarrow> (Raise_KeyError ''Referring PHC'', say Show_pending w)
                 | Some b \<Rightarrow>
                (case py_index (columns unack) ''Diagnosis/Reason for Referral'' of
                   None \<Rightarrow> (Raise_KeyError ''Diagnosis/Reason for Referral'', say Show_pending w)
                 | Some c \<Rightarrow>
                     acknowledge_form net ?rid (cell selected_referral_details a) inp
                       (say (Show_details (cell selected_referral_details a)
                               (cell selected_referral_details b)
                               (cell selected_referral_details c)) (say Show_pending w)))))))
        = (f, w')"
      by (simp add: pending_section_def Let_def)
    show ?thesis
    proof (cases "sheet w' = sheet w \<and> cache w' = cache w")
      case True
      then show ?thesis by simp
    next
      case False
      with run obtain name m where
        "acknowledge_form net ?rid name inp (say m (say Show_pending w)) = (f, w')"
        by (auto simp: say_simps split: option.splits list.splits)
      with Some mem show ?thesis
        by (intro disjI2 exI[of _ ids] exI[of _ ?rid] exI[of _ name]
              exI[of _ "say m (say Show_pending w)"]) (simp add: say_simps)
    qed
  qed
qed

lemma acknowledge_form_advance:
  assumes wf: "well_formed w" and rid: "rid \<noteq> ''Referral ID''"
  shows "advance w (snd (acknowledge_form net rid name inp w))"
proof (cases "ack_submitted inp \<and> time_of_presentation inp \<noteq> [] \<and> acknowledged_by inp \<noteq> []")
  case False
  then have "snd (acknowledge_form net rid name inp w) = w \<or>
             snd (acknowledge_form net rid name inp w) = say Warning_fill_in w"
    by (auto simp: acknowledge_form_def)
  moreover have "advance w w"
    using wf by (rule advance_refl)
  moreover have "advance w (say Warning_fill_in w)"
    by (rule advance_say[OF advance_refl[OF wf]])
  ultimately show ?thesis
    by auto
next
  case True
  define u1 where "u1 = update_cell_by_referral_id (net 1) rid ''Gbagada Acknowledged'' ''Yes'' w"
  define u2 where "u2 = update_cell_by_referral_id (net 2) rid ''Date/Time of Presentation''
                 (time_of_presentation inp) (snd u1)"
  define u3 where "u3 = update_cell_by_referral_id (net 3) rid ''Acknowledged By''
                 (acknowledged_by inp) (snd u2)"
  define u4 where "u4 = update_cell_by_referral_id (net 4) rid ''Gbagada Notes''
                 (gbagada_notes inp) (snd u3)"
  from True have "acknowledge_form net rid name inp w =
     (if fst u1 \<and> fst u2 \<and> fst u3 \<and> fst u4
      then (Rerun, say (Success_acknowledged name) (snd u4))
      else (Continue, say Error_ack_failed (snd u4)))"
    using acknowledge_form_run[of inp net rid name w]
    by (simp add: Let_def u1_def u2_def u3_def u4_def)
  then have res: "\<exists>m. snd (acknowledge_form net rid name inp w) = say m (snd u4)"
    by auto
  have a1: "advance w (snd u1)"
    unfolding u1_def by (rule update_advance[OF wf rid ack_column]) simp_all
  then have wf1: "well_formed (snd u1)" by (simp add: advance_def)
  have a2: "advance (snd u1) (snd u2)"
    unfolding u2_def by (rule update_advance[OF wf1 rid ack_columns(1)]) simp_all
  then have wf2: "well_formed (snd u2)" by (simp add: advance_def)
  have a3: "advance (snd u2) (snd u3)"
    unfolding u3_def by (rule update_advance[OF wf2 rid ack_columns(2)]) simp_all
  then have wf3: "well_formed (snd u3)" by (simp add: advance_def)
  have a4: "advance (snd u3) (snd u4)"
    unfolding u4_def by (rule update_advance[OF wf3 rid ack_columns(3)]) simp_all
  have "advance w (snd u4)"
    by (rule advance_trans[OF advance_trans[OF advance_trans[OF a1 a2] a3] a4])
  then have "\<And>m. advance w (say m (snd u4))"
    by (rule advance_say)
  with res show ?thesis
    by auto
qed

lemma acknowledged_section_same:
  "sheet (snd (acknowledged_section a w)) = sheet w \<and>
   cache (snd (acknowledged_section a w)) = cache w"
  by (simp add: acknowledged_section_def say_simps)

lemma gbagada_page_advance:
  assumes wf: "well_formed w"
  shows "advance w (snd (gbagada_page net clock inp w))"
proof -
  obtain r w0 where ld: "load_data (net 0) clock w = (r, w0)"
    by (cases "load_data (net 0) clock w")
  from load_data_wf[OF wf ld] have wf0: "well_formed w0" and s0: "sheet w0 = sheet w"
    and body: "\<forall>df. r = Some df \<longrightarrow> load_data_body Up (sheet w) = Inr df"
    by simp_all
  have a0: "advance w w0"
    using wf0 s0 by (rule advance_same_sheet)
  have key: "\<And>w'. advance w0 w' \<Longrightarrow> advance w w'"
    using a0 by (rule advance_trans)
  show ?thesis
  proof (cases r)
    case None
    with ld a0 show ?thesis
      by (simp add: gbagada_page_def)
  next
    case (Some data_df)
    with body have b: "load_data_body Up (sheet w) = Inr data_df" by simp
    show ?thesis
    proof (cases "df_empty data_df")
      case True
      with ld Some have "snd (gbagada_page net clock inp w) = say Info_no_referrals w0"
        by (simp add: gbagada_page_def)
      with a0 show ?thesis
        by (simp add: advance_say)
    next
      case False
      from wf have ok: "sheet_ok (sheet w)" by (simp add: well_formed_def)
      from df_of_sheet[OF ok b False] have cols: "columns data_df = sheet_headers"
        and rws: "rows data_df = map (\<lambda>r. map (cell r) [0..<length sheet_headers]) (tl (sheet w))"
        by simp_all
      from cols obtain unack where un:
        "df_where_eq data_df ''Gbagada Acknowledged'' ''No'' = Some unack"
        by (simp add: df_where_eq_def ack_column)
      from cols obtain acked where ac:
        "df_where_eq data_df ''Gbagada Acknowledged'' ''Yes'' = Some acked"
        by (simp add: df_where_eq_def ack_column)
      obtain f w1 where ps: "pending_section net inp unack w0 = (f, w1)"
        by (cases "pending_section net inp unack w0")
      have a1: "advance w0 w1"
      proof -
        from pending_section_cases[OF ps]
        consider "sheet w1 = sheet w0 \<and> cache w1 = cache w0"
          | ids rid name w2 where "df_column unack ''Referral ID'' = Some ids" "rid \<in> set ids"
              "sheet w2 = sheet w0" "cache w2 = cache w0"
              "acknowledge_form net rid name inp w2 = (f, w1)"
          by blast
        then show ?thesis
        proof cases
          case 1
          then show ?thesis
            using advance_same[OF _ _ advance_refl[OF wf0], of w1] by simp
        next
          case 2
          from pending_ids_not_header[OF ok cols rws un 2(1,2)]
          have rid: "rid \<noteq> ''Referral ID''" .
          from 2(3,4) wf0 have wf2: "well_formed w2"
            by (simp add: well_formed_same[of w2 w0])
          from acknowledge_form_advance[OF wf2 rid, of net name inp] 2(5)
          have "advance w2 w1" by simp
          with 2(3) show ?thesis
            by (simp add: advance_def)
        qed
      qed
      have res: "snd (gbagada_page net clock inp w) = w1 \<or>
                 snd (gbagada_page net clock inp w) = snd (acknowledged_section acked w1)"
        using ld Some False un ac ps
        by (cases f) (simp_all add: gbagada_page_def)
      have "advance w0 (snd (acknowledged_section acked w1))"
        using advance_same[OF _ _ a1, of "snd (acknowledged_section acked w1)"]
          acknowledged_section_same[of acked w1] by simp
      with a1 res key show ?thesis
        by auto
    qed
  qed
qed

lemma uuid4_not_header: "uuid4_text s \<Longrightarrow> s \<noteq> ''Referral ID''"
  by (auto simp: uuid4_text_def)

lemma row_data_ok: "uuid4_text u \<Longrightarrow> row_ok (row_data u t dob inp)"
  using uuid4_not_header[of u] by (simp add: row_ok_def row_data_def cell_def)

lemma sheet_ok_append:
  assumes "sheet_ok ws" and "row_ok r"
  shows "sheet_ok (ws @ [r])" and "only_yes ws (ws @ [r])"
proof -
  from assms(1) obtain h vals where ws: "ws = h # vals"
    by (cases ws) (auto simp: sheet_ok_def)
  with assms show "sheet_ok (ws @ [r])"
    by (simp add: sheet_ok_def)
  show "only_yes ws (ws @ [r])"
    by (simp add: only_yes_def nth_append)
qed

lemma append_data_advance:
  assumes wf: "well_formed w" and r: "row_ok r"
  shows "advance w (snd (append_data net r w))"
proof (cases "net = Up")
  case True
  from wf have ok: "sheet_ok (sheet w)" by (simp add: well_formed_def)
  from True sheet_ok_append[OF ok r] show ?thesis
    by (simp add: append_data_def append_row_def advance_def well_formed_def cache_ok_def)
next
  case False
  then have "sheet (snd (append_data net r w)) = sheet w"
    "cache (snd (append_data net r w)) = cache w"
    by (simp_all add: append_data_def say_simps)
  then show ?thesis
    using advance_refl[OF wf] by (rule advance_same)
qed

lemma phc_advance:
  assumes wf: "well_formed w" and u: "uuid4_text uuid4"
  shows "advance w (phc_referral_form net now uuid4 inp w)"
proof -
  let ?w0 = "say (Info_referral_time (strftime_ymd_hms now)) w"
  have a0: "advance w ?w0"
    by (rule advance_say[OF advance_refl[OF wf]])
  then have wf0: "well_formed ?w0" by (simp add: advance_def)
  show ?thesis
  proof (cases "submitted inp \<and> all_required inp")
    case False
    then have "phc_referral_form net now uuid4 inp w = ?w0 \<or>
               phc_referral_form net now uuid4 inp w = say Error_required_fields ?w0"
      by (auto simp: phc_referral_form_def Let_def)
    with a0 advance_say[OF a0, of Error_required_fields] show ?thesis
      by auto
  next
    case True
    with phc_valid[of inp net now uuid4 w] obtain dob where
      eq: "phc_referral_form net now uuid4 inp w =
       (case append_data net (row_data uuid4 (strftime_ymd_hms now) dob inp) ?w0 of
          (True, w1) \<Rightarrow> say (Info_referral_id uuid4)
                         (say (Success_submitted (patient_name inp) (referring_phc inp)) w1)
        | (False, w1) \<Rightarrow> say Error_submit_failed w1)"
      by blast
    let ?a = "append_data net (row_data uuid4 (strftime_ymd_hms now) dob inp) ?w0"
    have a1: "advance ?w0 (snd ?a)"
      by (rule append_data_advance[OF wf0 row_data_ok[OF u]])
    have a2: "advance w (snd ?a)"
      by (rule advance_trans[OF a0 a1])
    have "phc_referral_form net now uuid4 inp w =
            say (Info_referral_id uuid4)
              (say (Success_submitted (patient_name inp) (referring_phc inp)) (snd ?a)) \<or>
          phc_referral_form net now uuid4 inp w = say Error_submit_failed (snd ?a)"
      unfolding eq by (cases ?a) (auto split: bool.splits)
    with advance_say[OF advance_say[OF a2]] advance_say[OF a2] show ?thesis
      by auto
  qed
qed

lemma step_advance:
  assumes "well_formed w" and "step w w'"
  shows "advance w w'"
  using assms(2,1)
  by (induction rule: step.induct) (simp_all add: phc_advance gbagada_page_advance)

lemma steps_advance:
  assumes "step\<^sup>*\<^sup>* w w'" and "well_formed w"
  shows "advance w w'"
  using assms
proof (induction rule: rtranclp_induct)
  case base
  then show ?case by (rule advance_refl)
next
  case (step y z)
  from step.IH[OF step.prems] have a: "advance w y" .
  then have "well_formed y" by (simp add: advance_def)
  from step_advance[OF this step.hyps(2)] a show ?case
    by (rule advance_trans[rotated])
qed

lemma acknowledged_field_ok:
  "sheet_ok ws \<Longrightarrow>
   acknowledged_field ws i = (if 0 < i \<and> i < length ws then Some (cell (ws ! i) 9) else None)"
  using sheet_ok_header[of ws] by (simp add: acknowledged_field_def ack_column)

lemma demo_well_formed: "well_formed demo_world"
  by (simp add: well_formed_def sheet_ok_def cache_ok_def demo_world_def demo_sheet_def
        row_ok_def cell_def)

lemma demo_load:
  "load_data Up 0 demo_world = (Some demo_df, demo_world\<lparr>cache := Some (0, demo_df)\<rparr>)"
proof -
  have "map (\<lambda>r. map (cell r) [0..<length sheet_headers]) (tl demo_sheet) = tl demo_sheet"
    by (simp add: demo_sheet_def sheet_headers_def cell_def upt_rec)
  then have "load_data_body Up (sheet demo_world) = Inr demo_df"
    using load_data_body_rows[OF distinct_sheet_headers, of "tl demo_sheet"]
    by (simp add: demo_world_def demo_sheet_def demo_df_def)
  then show ?thesis
    by (simp add: load_data_uncached demo_world_def)
qed

lemma demo_filters:
  "df_where_eq demo_df ''Gbagada Acknowledged'' ''No'' =
     Some \<lparr>columns = sheet_headers, rows = [demo_sheet ! Suc 0]\<rparr>"
  "df_where_eq demo_df ''Gbagada Acknowledged'' ''Yes'' =
     Some \<lparr>columns = sheet_headers, rows = [demo_sheet ! 2]\<rparr>"
  "\<not> df_empty demo_df"
  by (simp_all add: df_where_eq_def demo_df_def ack_column demo_sheet_def cell_def df_empty_def
        sheet_headers_def)

lemma demo_pending:
  "pending_section (\<lambda>k. Up) demo_ack \<lparr>columns = sheet_headers, rows = [demo_sheet ! Suc 0]\<rparr> w0 =
     acknowledge_form (\<lambda>k. Up) ''abc-123'' ''Jane Doe'' demo_ack
       (say (Show_details ''Jane Doe'' ''PHC A'' ''Fever'') (say Show_pending w0))"
  by (simp add: pending_section_def df_empty_def df_column_def df_where_eq_def selectbox_def
        demo_ack_def demo_sheet_def sheet_headers_def cell_def Let_def)

lemma demo_acknowledge:
  assumes "sheet w = demo_sheet"
  shows "fst (acknowledge_form (\<lambda>k. Up) ''abc-123'' n demo_ack w) = Rerun \<and>
         sheet (snd (acknowledge_form (\<lambda>k. Up) ''abc-123'' n demo_ack w)) ! 1 =
           [''abc-123'', ''Jane Doe'', ''1990-01-01'', ''Female'', ''0800'', ''PHC A'',
            ''2024-01-01 09:00:00'', ''Fever'', ''Dr B'', ''Yes'', ''2024-01-01 10:00:00'',
            ''Nurse A'', []] \<and>
         length (sheet (snd (acknowledge_form (\<lambda>k. Up) ''abc-123'' n demo_ack w))) = 3 \<and>
         sheet (snd (acknowledge_form (\<lambda>k. Up) ''abc-123'' n demo_ack w)) ! 0 = sheet_headers"
  using assms
  by (simp add: acknowledge_form_def demo_ack_def demo_sheet_def sheet_headers_def
        update_cell_by_referral_id_def col_values_def row_values_def cell_def update_cell_def
        put_cell_def update_failed_def say_def)

lemma demo_page:
  "gbagada_page (\<lambda>k. Up) 0 demo_ack demo_world =
     acknowledge_form (\<lambda>k. Up) ''abc-123'' ''Jane Doe'' demo_ack
       (say (Show_details ''Jane Doe'' ''PHC A'' ''Fever'')
          (say Show_pending (demo_world\<lparr>cache := Some (0, demo_df)\<rparr>)))"
proof -
  let ?w = "say (Show_details ''Jane Doe'' ''PHC A'' ''Fever'')
          (say Show_pending (demo_world\<lparr>cache := Some (0, demo_df)\<rparr>))"
  have "sheet ?w = demo_sheet"
    by (simp add: say_simps demo_world_def)
  from demo_acknowledge[OF this, of "''Jane Doe''"]
  have "fst (acknowledge_form (\<lambda>k. Up) ''abc-123'' ''Jane Doe'' demo_ack ?w) = Rerun"
    by simp
  then show ?thesis
    by (cases "acknowledge_form (\<lambda>k. Up) ''abc-123'' ''Jane Doe'' demo_ack ?w")
       (simp add: gbagada_page_def demo_load demo_filters demo_pending)
qed

lemma demo_page_field:
  "acknowledged_field (sheet (snd (gbagada_page (\<lambda>k. Up) 0 demo_ack demo_world))) 1 = Some ''Yes''"
proof -
  let ?w = "say (Show_details ''Jane Doe'' ''PHC A'' ''Fever'')
          (say Show_pending (demo_world\<lparr>cache := Some (0, demo_df)\<rparr>))"
  have "sheet ?w = demo_sheet"
    by (simp add: say_simps demo_world_def)
  from demo_acknowledge[OF this, of "''Jane Doe''"] show ?thesis
    unfolding demo_page
    by (simp add: acknowledged_field_def row_values_def ack_column cell_def)
qed

text \<open>
  Claim C7. From a well-formed world, along any sequence of runs of the submit and
  acknowledge flows, the acknowledged field of an existing record either keeps its value
  or has gone from ''No'' to ''Yes''; in particular it never goes from ''Yes'' to ''No''.
\<close>

theorem acknowledged_only_turns_yes:
  assumes "well_formed w" and "step\<^sup>*\<^sup>* w w'"
    and "acknowledged_field (sheet w) i = Some a"
  shows "\<exists>a'. acknowledged_field (sheet w') i = Some a' \<and>
              (a' = a \<or> (a = ''No'' \<and> a' = ''Yes''))"
proof -
  from steps_advance[OF assms(2,1)] have wf': "well_formed w'"
    and oy: "only_yes (sheet w) (sheet w')"
    by (simp_all add: advance_def)
  from assms(1) have ok: "sheet_ok (sheet w)" by (simp add: well_formed_def)
  from wf' have ok': "sheet_ok (sheet w')" by (simp add: well_formed_def)
  from assms(3) have i: "0 < i \<and> i < length (sheet w)" and a: "a = cell (sheet w ! i) 9"
    by (auto simp: acknowledged_field_ok[OF ok] split: if_splits)
  from oy i have "i < length (sheet w')"
    and "cell (sheet w' ! i) 9 = cell (sheet w ! i) 9 \<or>
         (cell (sheet w ! i) 9 = ''No'' \<and> cell (sheet w' ! i) 9 = ''Yes'')"
    by (auto simp: only_yes_def)
  with i a show ?thesis
    by (simp add: acknowledged_field_ok[OF ok'])
qed

text \<open>One run of the dashboard on the example worksheet turns the first referral from ''No'' to ''Yes''.\<close>

theorem acknowledged_only_turns_yes_witness:
  "well_formed demo_world \<and>
   step\<^sup>*\<^sup>* demo_world (snd (gbagada_page (\<lambda>k. Up) 0 demo_ack demo_world)) \<and>
   acknowledged_field (sheet demo_world) 1 = Some ''No'' \<and>
   acknowledged_field (sheet (snd (gbagada_page (\<lambda>k. Up) 0 demo_ack demo_world))) 1 = Some ''Yes''"
proof -
  have h2: "step\<^sup>*\<^sup>* demo_world (snd (gbagada_page (\<lambda>k. Up) 0 demo_ack demo_world))"
    by (rule r_into_rtranclp) (rule step.acknowledge)
  have h3: "acknowledged_field (sheet demo_world) 1 = Some ''No''"
    using demo_header_row
    by (simp add: acknowledged_field_def ack_column demo_world_def demo_sheet_def cell_def)
  from acknowledged_only_turns_yes [OF demo_well_formed h2 h3] demo_page_field
  have "acknowledged_field (sheet (snd (gbagada_page (\<lambda>k. Up) 0 demo_ack demo_world))) 1
          = Some ''Yes''"
    by simp
  with demo_well_formed h2 h3 show ?thesis
    by simp
qed

end
